theory Spec2Isabelle
  imports Main
begin

section \<open>Autograd function nodes: flags, edges and the trace bridge\<close>

text \<open>
  A shallow embedding of \<^verbatim>\<open>torch/csrc/autograd/function.cpp\<close>: the flag resolver
  \<^verbatim>\<open>makeFlags\<close> with its three \<^verbatim>\<open>Function::flags\<close> overloads, and the trace bridge
  \<^verbatim>\<open>Function::tracedApply\<close> with \<^verbatim>\<open>Function::setUpContextEdge\<close>.
\<close>

subsection \<open>Variables and flags\<close>

text \<open>
  A \<^verbatim>\<open>std::shared_ptr<Function>\<close> is modelled by the identity of the node it points to,
  and a null pointer by \<open>None\<close>. A \<^verbatim>\<open>Variable\<close> is a handle: \<^verbatim>\<open>var.defined()\<close> says
  whether it points to an implementation object, and the other accessors read that object.
  The source's \<^verbatim>\<open>int\<close> counters are modelled by unbounded numbers: they count the
  elements of an argument list.
\<close>

type_synonym fn_ptr = nat

type_synonym tensor_data = nat

record VariableImpl =
  requires_grad :: bool
  var_is_volatile :: bool
  grad_fn :: "fn_ptr option"
  output_nr :: int
  grad_accumulator :: "fn_ptr option"
  var_data :: tensor_data

type_synonym Variable = "VariableImpl option"

type_synonym variable_list = "Variable list"

definition defined :: "Variable \<Rightarrow> bool" where
  "defined var = (var \<noteq> None)"

type_synonym edge = "fn_ptr option \<times> int"

record FunctionFlags =
  is_executable :: bool
  is_volatile :: bool
  next_functions :: "edge list"

text \<open>
  The body of the \<^verbatim>\<open>for\<close> loop of \<^verbatim>\<open>makeFlags\<close> for one input \<open>var\<close> at index \<open>i\<close>.
  An undefined input changes nothing.
\<close>

definition makeFlags_step :: "Variable \<Rightarrow> nat \<Rightarrow> FunctionFlags \<Rightarrow> FunctionFlags" where
  "makeFlags_step var i f =
     (case var of
        None \<Rightarrow> f
      | Some v \<Rightarrow>
          f\<lparr> is_executable := is_executable f \<or> requires_grad v,
             is_volatile := is_volatile f \<or> var_is_volatile v,
             next_functions :=
               (next_functions f)
                 [i := (case grad_fn v of
                          Some g \<Rightarrow> (Some g, output_nr v)
                        | None \<Rightarrow> (grad_accumulator v, 0))] \<rparr>)"

fun makeFlags_loop :: "variable_list \<Rightarrow> nat \<Rightarrow> FunctionFlags \<Rightarrow> FunctionFlags" where
  "makeFlags_loop [] i f = f"
| "makeFlags_loop (var # rest) i f = makeFlags_loop rest (i + 1) (makeFlags_step var i f)"

definition makeFlags :: "variable_list \<Rightarrow> FunctionFlags" where
  "makeFlags inputs =
     (let num_inputs = length inputs;
          f = \<lparr> is_executable = False, is_volatile = False,
                next_functions = replicate num_inputs (None, 0) \<rparr>;
          f = makeFlags_loop inputs 0 f
      in f\<lparr> is_executable := is_executable f \<and> \<not> is_volatile f \<rparr>)"

text \<open>
  The three overloads of \<^verbatim>\<open>Function::flags\<close>. A \<^verbatim>\<open>variable_list\<close> and a
  \<^verbatim>\<open>std::initializer_list<Variable>\<close> are both sequences of variables. The tensor-list
  overload first builds a \<^verbatim>\<open>variable_list\<close> from the tensors; the conversion of one
  tensor to a \<^verbatim>\<open>Variable\<close> is declared outside this file and is the parameter
  \<open>to_variable\<close>.
\<close>

definition flags_variable_list :: "variable_list \<Rightarrow> FunctionFlags" where
  "flags_variable_list inputs = makeFlags inputs"

definition flags_initializer_list :: "Variable list \<Rightarrow> FunctionFlags" where
  "flags_initializer_list inputs = makeFlags inputs"

definition flags_tensor_list :: "('t \<Rightarrow> Variable) \<Rightarrow> 't list \<Rightarrow> FunctionFlags" where
  "flags_tensor_list to_variable inputs = makeFlags (map to_variable inputs)"

subsection \<open>The trace graph\<close>

text \<open>
  The graph operations of \<^verbatim>\<open>torch/csrc/jit/ir.h\<close> and the tracer's value map are declared
  outside this file. Modelled from the spec: \<^verbatim>\<open>createCppOp\<close> and \<^verbatim>\<open>createSelect\<close> make a
  fresh node (a composite node for a function, or the projection of one result slot of a
  node), \<^verbatim>\<open>appendNode\<close> puts a node at the end of the graph and hands it back,
  \<^verbatim>\<open>addInput\<close> attaches one more input edge to a node, \<^verbatim>\<open>setType\<close> and
  \<^verbatim>\<open>inferTypeFrom\<close> set a node's type, and \<^verbatim>\<open>setValueTrace\<close> records which node
  stands for a value. A \<^verbatim>\<open>jit::Node*\<close> is the index of the node among the nodes created
  so far; a null pointer is \<open>None\<close>.
\<close>

type_synonym node_ptr = nat

datatype jit_type = HandleType | TypeOfData tensor_data

datatype node_kind = CppOp fn_ptr | Select node_ptr int

record jit_node =
  kind :: node_kind
  node_inputs :: "node_ptr option list"
  node_type :: "jit_type option"

record TracingState =
  graph_store :: "jit_node list"
  graph_nodes :: "node_ptr list"
  value_trace :: "Variable \<Rightarrow> node_ptr option"

type_synonym SavedVariable = nat

datatype graph_op =
    CreateCppOp fn_ptr
  | GetValueTrace Variable
  | AddInput node_ptr "node_ptr option"
  | AppendNode node_ptr
  | CreateSelect node_ptr int
  | InferTypeFrom node_ptr tensor_data
  | SetValueTrace Variable node_ptr
  | SetType node_ptr jit_type
  | SetForwardCtxSelect fn_ptr node_ptr

text \<open>
  The calls a run makes, in order: the operations on the tracing state's lock, every
  operation on the trace graph, and the calls to the node's own virtual functions and to
  the tracer's collaborators.
\<close>

datatype event =
    Lock
  | Unlock
  | Trace graph_op
  | Apply variable_list
  | SavedVariables
  | Unpack SavedVariable
  | NontraceableBackwardSubgraph variable_list variable_list
  | SetUpContextEdge node_ptr int variable_list variable_list

text \<open>
  The state a run works on: the tracing state, the \<^verbatim>\<open>forward_ctx_select\<close> field of every
  \<^verbatim>\<open>Eval\<close> node (by the node's identity), and the log of the calls made so far.
\<close>

record world =
  tracing :: TracingState
  forward_ctx_select :: "fn_ptr \<Rightarrow> node_ptr option"
  events :: "event list"

datatype error = RuntimeError string

definition emit :: "event \<Rightarrow> world \<Rightarrow> world" where
  "emit e w = w\<lparr> events := events w @ [e] \<rparr>"

definition on_graph :: "graph_op \<Rightarrow> (TracingState \<Rightarrow> 'a \<times> TracingState) \<Rightarrow> world \<Rightarrow> 'a \<times> world" where
  "on_graph op m w =
     (case m (tracing w) of
        (r, st) \<Rightarrow> (r, w\<lparr> tracing := st, events := events w @ [Trace op] \<rparr>))"

definition new_node :: "node_kind \<Rightarrow> TracingState \<Rightarrow> node_ptr \<times> TracingState" where
  "new_node k st =
     (length (graph_store st),
      st\<lparr> graph_store := graph_store st @ [\<lparr> kind = k, node_inputs = [], node_type = None \<rparr>] \<rparr>)"

text \<open>A write through a pointer to a node the graph never created changes nothing.\<close>

definition update_node :: "node_ptr \<Rightarrow> (jit_node \<Rightarrow> jit_node) \<Rightarrow> TracingState \<Rightarrow> TracingState" where
  "update_node n upd st =
     (if n < length (graph_store st)
      then st\<lparr> graph_store := (graph_store st)[n := upd (graph_store st ! n)] \<rparr>
      else st)"

definition createCppOp :: "fn_ptr \<Rightarrow> world \<Rightarrow> node_ptr \<times> world" where
  "createCppOp fn w = on_graph (CreateCppOp fn) (new_node (CppOp fn)) w"

definition createSelect :: "node_ptr \<Rightarrow> int \<Rightarrow> world \<Rightarrow> node_ptr \<times> world" where
  "createSelect node i w = on_graph (CreateSelect node i) (new_node (Select node i)) w"

definition appendNode :: "node_ptr \<Rightarrow> world \<Rightarrow> node_ptr \<times> world" where
  "appendNode n w =
     on_graph (AppendNode n) (\<lambda>st. (n, st\<lparr> graph_nodes := graph_nodes st @ [n] \<rparr>)) w"

definition addInput :: "node_ptr \<Rightarrow> node_ptr option \<Rightarrow> world \<Rightarrow> world" where
  "addInput n v w =
     snd (on_graph (AddInput n v)
            (\<lambda>st. ((), update_node n (\<lambda>nd. nd\<lparr> node_inputs := node_inputs nd @ [v] \<rparr>) st)) w)"

definition setType :: "node_ptr \<Rightarrow> jit_type \<Rightarrow> world \<Rightarrow> world" where
  "setType n ty w =
     snd (on_graph (SetType n ty)
            (\<lambda>st. ((), update_node n (\<lambda>nd. nd\<lparr> node_type := Some ty \<rparr>) st)) w)"

definition inferTypeFrom :: "node_ptr \<Rightarrow> tensor_data \<Rightarrow> world \<Rightarrow> world" where
  "inferTypeFrom n d w =
     snd (on_graph (InferTypeFrom n d)
            (\<lambda>st. ((), update_node n (\<lambda>nd. nd\<lparr> node_type := Some (TypeOfData d) \<rparr>) st)) w)"

definition setValueTrace :: "Variable \<Rightarrow> node_ptr \<Rightarrow> world \<Rightarrow> world" where
  "setValueTrace var n w =
     snd (on_graph (SetValueTrace var n)
            (\<lambda>st. ((), st\<lparr> value_trace := (value_trace st)(var := Some n) \<rparr>)) w)"

subsection \<open>Function nodes and their collaborators\<close>

text \<open>
  What \<^verbatim>\<open>tracedApply\<close> reads of the node it runs on: its shared pointer, its \<^verbatim>\<open>name()\<close>,
  the virtual functions \<^verbatim>\<open>is_traceable\<close>, \<^verbatim>\<open>passes_state_transparently\<close>,
  \<^verbatim>\<open>saved_variables\<close> and \<^verbatim>\<open>apply\<close>, whether \<^verbatim>\<open>dynamic_cast<Eval*>(this)\<close> succeeds,
  and the flag \<^verbatim>\<open>tracing_state->in_eval_subgraph\<close> of the node.
\<close>

record Function =
  self_ptr :: fn_ptr
  fn_name :: string
  is_traceable :: bool
  passes_state_transparently :: bool
  is_eval :: bool
  in_eval_subgraph :: bool
  saved_variables :: "SavedVariable list option"
  fn_apply :: "variable_list \<Rightarrow> variable_list"

text \<open>
  The functions of other files whose results the code uses: \<^verbatim>\<open>tracer::getValueTrace\<close>
  (which may itself extend the tracing state), \<^verbatim>\<open>SavedVariable::unpack\<close> and
  \<^verbatim>\<open>Eval::getBackwardEval\<close> (a null result is \<open>None\<close>). They are parameters of the model.
\<close>

record collaborators =
  getValueTrace :: "TracingState \<Rightarrow> Variable \<Rightarrow> node_ptr \<times> TracingState"
  unpack :: "SavedVariable \<Rightarrow> fn_ptr \<Rightarrow> Variable"
  getBackwardEval :: "variable_list \<Rightarrow> variable_list \<Rightarrow> fn_ptr option"

subsection \<open>The context edge\<close>

definition setUpContextEdge ::
    "collaborators \<Rightarrow> node_ptr \<Rightarrow> int \<Rightarrow> variable_list \<Rightarrow> variable_list \<Rightarrow> world \<Rightarrow> world" where
  "setUpContextEdge env node ctx_output_nr inputs outputs w =
     (let w = emit (SetUpContextEdge node ctx_output_nr inputs outputs) w;
          (sel, w) = createSelect node ctx_output_nr w;
          (ctx_select, w) = appendNode sel w;
          w = setType ctx_select HandleType w;
          backward_eval = getBackwardEval env inputs outputs
      in case backward_eval of
           None \<Rightarrow> w
         | Some ev \<Rightarrow>
             w\<lparr> forward_ctx_select := (forward_ctx_select w)(ev := Some ctx_select),
                events := events w @ [Trace (SetForwardCtxSelect ev ctx_select)] \<rparr>)"

subsection \<open>The trace bridge\<close>

text \<open>The loop that attaches the trace of every input to the composite node.\<close>

fun add_inputs :: "collaborators \<Rightarrow> node_ptr \<Rightarrow> variable_list \<Rightarrow> world \<Rightarrow> world" where
  "add_inputs env this_node [] w = w"
| "add_inputs env this_node (input # rest) w =
     (let (v, w) = on_graph (GetValueTrace input) (\<lambda>st. getValueTrace env st input) w;
          w = addInput this_node (Some v) w
      in add_inputs env this_node rest w)"

text \<open>The loop that sets up the output traces, from output index \<open>i\<close> on.\<close>

fun set_output_traces :: "node_ptr \<Rightarrow> variable_list \<Rightarrow> int \<Rightarrow> world \<Rightarrow> world" where
  "set_output_traces this_node [] i w = w"
| "set_output_traces this_node (output # rest) i w =
     (let (n, w) = createSelect this_node i w;
          (sel, w) = appendNode n w;
          w = (case output of
                 None \<Rightarrow> w
               | Some v \<Rightarrow> setValueTrace output sel (inferTypeFrom sel (var_data v) w))
      in set_output_traces this_node rest (i + 1) w)"

text \<open>The loop that unpacks the saved variables onto the end of the copied input list.\<close>

fun unpack_saved ::
    "collaborators \<Rightarrow> Function \<Rightarrow> SavedVariable list \<Rightarrow> variable_list \<Rightarrow> world \<Rightarrow> variable_list \<times> world" where
  "unpack_saved env fn [] bw_subgraph_inputs w = (bw_subgraph_inputs, w)"
| "unpack_saved env fn (saved_var # rest) bw_subgraph_inputs w =
     unpack_saved env fn rest
       (bw_subgraph_inputs @ [unpack env saved_var (self_ptr fn)]) (emit (Unpack saved_var) w)"

text \<open>
  The block guarded by \<^verbatim>\<open>if (!should_trace_backward)\<close>: it throws when
  \<^verbatim>\<open>saved_variables()\<close> returns nothing.
\<close>

definition trace_backward ::
    "collaborators \<Rightarrow> Function \<Rightarrow> variable_list \<Rightarrow> variable_list \<Rightarrow> world \<Rightarrow> (error + unit) \<times> world" where
  "trace_backward env fn inputs outputs w =
     (let w = emit SavedVariables w;
          saved_vars = saved_variables fn
      in case saved_vars of
           None \<Rightarrow>
             (Inl (RuntimeError (''saved_variables() needed but not implemented in '' @ fn_name fn)), w)
         | Some svs \<Rightarrow>
             (let (bw_subgraph_inputs, w) = unpack_saved env fn svs inputs w;
                  w = emit (NontraceableBackwardSubgraph bw_subgraph_inputs outputs) w
              in (Inr (), w)))"

text \<open>The block guarded by \<^verbatim>\<open>if (!passes_state_transparently())\<close>.\<close>

definition link_backward ::
    "collaborators \<Rightarrow> Function \<Rightarrow> node_ptr \<Rightarrow> int \<Rightarrow> variable_list \<Rightarrow> variable_list \<Rightarrow> world
       \<Rightarrow> (error + unit) \<times> world" where
  "link_backward env fn this_node num_outputs inputs outputs w =
     (let this_eval = is_eval fn;
          w = (if this_eval then addInput this_node (forward_ctx_select w (self_ptr fn)) w else w);
          should_trace_backward = in_eval_subgraph fn;
          (r, w) = (if \<not> should_trace_backward then trace_backward env fn inputs outputs w
                    else (Inr (), w))
      in case r of
           Inl e \<Rightarrow> (Inl e, w)
         | Inr _ \<Rightarrow>
             (let has_backwards_eval = (\<not> should_trace_backward \<or> this_eval);
                  w = (if has_backwards_eval
                       then setUpContextEdge env this_node num_outputs inputs outputs w else w)
              in (Inr (), w)))"

text \<open>
  \<^verbatim>\<open>Function::tracedApply\<close>. The tracing state that \<^verbatim>\<open>tracer::getTracingState(inputs)\<close>
  finds is the one the model is given. The lock taken by \<^verbatim>\<open>state->lock()\<close> is owned by the local
  \<^verbatim>\<open>state_lock\<close>, which releases it when the function is left, by \<^verbatim>\<open>return\<close> or by the
  exception.
\<close>

definition tracedApply ::
    "collaborators \<Rightarrow> Function \<Rightarrow> variable_list \<Rightarrow> world \<Rightarrow> (error + variable_list) \<times> world" where
  "tracedApply env fn inputs w =
     (if is_traceable fn then (Inr (fn_apply fn inputs), emit (Apply inputs) w)
      else
        (let w = emit Lock w;
             (this_node, w) = createCppOp (self_ptr fn) w;
             w = add_inputs env this_node inputs w;
             (_, w) = appendNode this_node w;
             w = emit Unlock w;
             outputs = fn_apply fn inputs;
             w = emit (Apply inputs) w;
             w = emit Lock w;
             num_outputs = int (length outputs);
             w = set_output_traces this_node outputs 0 w;
             (r, w) = (if \<not> passes_state_transparently fn
                       then link_backward env fn this_node num_outputs inputs outputs w
                       else (Inr (), w));
             w = emit Unlock w
         in case r of
              Inl e \<Rightarrow> (Inl e, w)
            | Inr _ \<Rightarrow> (Inr outputs, w)))"

text \<open>The calls one run of \<^verbatim>\<open>tracedApply\<close> adds to the log.\<close>

definition tracedApply_events ::
    "collaborators \<Rightarrow> Function \<Rightarrow> variable_list \<Rightarrow> world \<Rightarrow> event list" where
  "tracedApply_events env fn inputs w =
     drop (length (events w)) (events (snd (tracedApply env fn inputs w)))"

subsection \<open>Example inputs\<close>

definition leaf_var :: VariableImpl where
  "leaf_var = \<lparr> requires_grad = True, var_is_volatile = False, grad_fn = None,
                output_nr = 0, grad_accumulator = Some 3, var_data = 11 \<rparr>"

definition volatile_var :: VariableImpl where
  "volatile_var = \<lparr> requires_grad = False, var_is_volatile = True, grad_fn = Some 4,
                    output_nr = 2, grad_accumulator = None, var_data = 12 \<rparr>"

definition example_env :: collaborators where
  "example_env = \<lparr> getValueTrace = (\<lambda>st var. new_node (CppOp 0) st),
                   unpack = (\<lambda>sv fn. None),
                   getBackwardEval = (\<lambda>ins outs. Some 7) \<rparr>"

definition example_world :: world where
  "example_world = \<lparr> tracing = \<lparr> graph_store = [], graph_nodes = [], value_trace = (\<lambda>_. None) \<rparr>,
                     forward_ctx_select = (\<lambda>_. None), events = [] \<rparr>"

definition example_fn :: Function where
  "example_fn = \<lparr> self_ptr = 1, fn_name = ''AddBackward'', is_traceable = False,
                  passes_state_transparently = False, is_eval = False, in_eval_subgraph = False,
                  saved_variables = Some [5], fn_apply = (\<lambda>xs. xs) \<rparr>"

definition nested_fn :: Function where
  "nested_fn = example_fn\<lparr> in_eval_subgraph := True \<rparr>"

definition unsaved_fn :: Function where
  "unsaved_fn = example_fn\<lparr> fn_name := ''MulBackward'', saved_variables := None \<rparr>"

definition traceable_fn :: Function where
  "traceable_fn = example_fn\<lparr> is_traceable := True \<rparr>"

definition nested_eval_fn :: Function where
  "nested_eval_fn = example_fn\<lparr> is_eval := True, in_eval_subgraph := True, saved_variables := None \<rparr>"

section \<open>The flag resolver\<close>

lemma makeFlags_loop_executable:
  "is_executable (makeFlags_loop xs i f) =
     (is_executable f \<or> (\<exists>v. Some v \<in> set xs \<and> requires_grad v))"
  by (induction xs arbitrary: i f) (auto simp: makeFlags_step_def split: option.splits)

lemma makeFlags_loop_volatile:
  "is_volatile (makeFlags_loop xs i f) =
     (is_volatile f \<or> (\<exists>v. Some v \<in> set xs \<and> var_is_volatile v))"
  by (induction xs arbitrary: i f) (auto simp: makeFlags_step_def split: option.splits)

lemma makeFlags_loop_length:
  "length (next_functions (makeFlags_loop xs i f)) = length (next_functions f)"
  by (induction xs arbitrary: i f) (auto simp: makeFlags_step_def split: option.splits)

text \<open>
  The loop writes the slots from \<open>i\<close> to \<open>i + length xs - 1\<close> of the defined inputs and
  leaves every other slot as it was.
\<close>

lemma makeFlags_loop_nth:
  "i + length xs \<le> length (next_functions f) \<Longrightarrow>
   next_functions (makeFlags_loop xs i f) ! j =
     (if i \<le> j \<and> j < i + length xs then
        (case xs ! (j - i) of
           None \<Rightarrow> next_functions f ! j
         | Some v \<Rightarrow> (case grad_fn v of
                        Some g \<Rightarrow> (Some g, output_nr v)
                      | None \<Rightarrow> (grad_accumulator v, 0)))
      else next_functions f ! j)"
proof (induction xs arbitrary: i f)
  case Nil
  then show ?case by auto
next
  case (Cons x xs)
  have len: "length (next_functions (makeFlags_step x i f)) = length (next_functions f)"
    by (simp add: makeFlags_step_def split: option.splits)
  have "Suc i + length xs \<le> length (next_functions (makeFlags_step x i f))"
    using Cons.prems len by simp
  from Cons.IH[OF this[unfolded Suc_eq_plus1]] show ?case
    using Cons.prems
    by (auto simp: makeFlags_step_def nth_Cons' nth_list_update split: option.splits)
qed

lemma makeFlags_volatile:
  "is_volatile (makeFlags inputs) = (\<exists>v. Some v \<in> set inputs \<and> var_is_volatile v)"
  by (simp add: makeFlags_def Let_def makeFlags_loop_volatile)

lemma makeFlags_executable:
  "is_executable (makeFlags inputs) =
     ((\<exists>v. Some v \<in> set inputs \<and> requires_grad v) \<and> \<not> is_volatile (makeFlags inputs))"
  by (simp add: makeFlags_def Let_def makeFlags_loop_volatile makeFlags_loop_executable)

text \<open>
  C1. For every input sequence the flags returned by \<^verbatim>\<open>makeFlags\<close> satisfy: the node is
  volatile exactly when some defined input is volatile, and it is executable exactly when
  some defined input requires a gradient and the node is not volatile. The empty input
  sequence gives a node that is neither executable nor volatile and has no edges.
\<close>

theorem makeFlags_flags:
  "is_volatile (makeFlags inputs) = (\<exists>v. Some v \<in> set inputs \<and> var_is_volatile v)
   \<and> is_executable (makeFlags inputs) =
       ((\<exists>v. Some v \<in> set inputs \<and> requires_grad v) \<and> \<not> is_volatile (makeFlags inputs))
   \<and> makeFlags [] = \<lparr> is_executable = False, is_volatile = False, next_functions = [] \<rparr>"
proof -
  have "makeFlags [] = \<lparr> is_executable = False, is_volatile = False, next_functions = [] \<rparr>"
    by (simp add: makeFlags_def)
  then show ?thesis
    using makeFlags_volatile [of inputs] makeFlags_executable [of inputs] by blast
qed

text \<open>
  C2. The flags returned by \<^verbatim>\<open>makeFlags\<close> are never executable and volatile at once, and
  one volatile defined input makes the node not executable, whatever the other inputs
  require.
\<close>

theorem makeFlags_executable_not_volatile:
  "\<not> (is_executable (makeFlags inputs) \<and> is_volatile (makeFlags inputs))
   \<and> (Some v \<in> set inputs \<and> var_is_volatile v \<longrightarrow> \<not> is_executable (makeFlags inputs))"
  using makeFlags_volatile [of inputs] makeFlags_executable [of inputs] by blast

theorem makeFlags_executable_not_volatile_witness:
  "Some volatile_var \<in> set [Some leaf_var, Some volatile_var] \<and> var_is_volatile volatile_var
   \<and> requires_grad leaf_var
   \<and> \<not> is_executable (makeFlags [Some leaf_var, Some volatile_var])
   \<and> is_volatile (makeFlags [Some leaf_var, Some volatile_var])"
  using makeFlags_executable_not_volatile [of "[Some leaf_var, Some volatile_var]" volatile_var]
  by (simp add: makeFlags_def makeFlags_step_def leaf_var_def volatile_var_def)

text \<open>
  C3. The edge table returned by \<^verbatim>\<open>makeFlags\<close> has one slot for each input, in input
  order: the slot of an undefined input is the default edge (a null pointer with slot 0),
  the slot of a defined input with a \<^verbatim>\<open>grad_fn\<close> is that node with the input's
  \<^verbatim>\<open>output_nr\<close>, and the slot of a defined leaf input is its gradient accumulator with
  slot 0.
\<close>

theorem makeFlags_next_functions:
  "length (next_functions (makeFlags inputs)) = length inputs
   \<and> next_functions (makeFlags inputs) =
       map (\<lambda>var. case var of
                    None \<Rightarrow> (None, 0)
                  | Some v \<Rightarrow> (case grad_fn v of
                                 Some g \<Rightarrow> (Some g, output_nr v)
                               | None \<Rightarrow> (grad_accumulator v, 0)))
           inputs"
proof -
  let ?f0 = "\<lparr> is_executable = False, is_volatile = False,
               next_functions = replicate (length inputs) (None, 0) \<rparr>"
  have nf: "next_functions (makeFlags inputs) = next_functions (makeFlags_loop inputs 0 ?f0)"
    by (simp add: makeFlags_def Let_def)
  have len: "length (next_functions (makeFlags inputs)) = length inputs"
    by (simp add: nf makeFlags_loop_length)
  have "next_functions (makeFlags inputs) ! j =
          (case inputs ! j of
             None \<Rightarrow> (None, 0)
           | Some v \<Rightarrow> (case grad_fn v of
                          Some g \<Rightarrow> (Some g, output_nr v)
                        | None \<Rightarrow> (grad_accumulator v, 0)))"
    if "j < length inputs" for j
    using that makeFlags_loop_nth [of 0 inputs ?f0 j]
    by (simp add: nf split: option.splits)
  then show ?thesis
    using len by (simp add: list_eq_iff_nth_eq)
qed

text \<open>
  C10. The three overloads of \<^verbatim>\<open>Function::flags\<close> agree: on the same sequence of
  variables the variable-list and the initializer-list overload return the same flags, and
  the tensor-list overload returns the flags of the variables its tensors convert to.
\<close>

theorem flags_overloads_agree:
  "flags_initializer_list inputs = flags_variable_list inputs
   \<and> flags_tensor_list to_variable tensors = flags_variable_list (map to_variable tensors)
   \<and> flags_variable_list inputs = makeFlags inputs"
  by (simp add: flags_variable_list_def flags_initializer_list_def flags_tensor_list_def)

section \<open>The trace bridge\<close>

subsection \<open>The calls of each step\<close>

lemma events_emit: "events (emit e w) = events w @ [e]"
  by (simp add: emit_def)

lemma on_graph_events: "on_graph op m w = (r, w') \<Longrightarrow> events w' = events w @ [Trace op]"
  by (auto simp: on_graph_def split: prod.splits)

lemma createCppOp_events: "createCppOp f w = (n, w') \<Longrightarrow> events w' = events w @ [Trace (CreateCppOp f)]"
  unfolding createCppOp_def by (rule on_graph_events)

lemma createCppOp_node: "createCppOp f w = (n, w') \<Longrightarrow> n = length (graph_store (tracing w))"
  by (auto simp: createCppOp_def on_graph_def new_node_def)

lemma createSelect_events: "createSelect n i w = (s, w') \<Longrightarrow> events w' = events w @ [Trace (CreateSelect n i)]"
  unfolding createSelect_def by (rule on_graph_events)

lemma appendNode_events: "appendNode n w = (s, w') \<Longrightarrow> events w' = events w @ [Trace (AppendNode n)]"
  unfolding appendNode_def by (rule on_graph_events)

lemma addInput_events: "events (addInput n v w) = events w @ [Trace (AddInput n v)]"
  by (simp add: addInput_def on_graph_def)

lemma setType_events: "events (setType n ty w) = events w @ [Trace (SetType n ty)]"
  by (simp add: setType_def on_graph_def)

lemma inferTypeFrom_events: "events (inferTypeFrom n d w) = events w @ [Trace (InferTypeFrom n d)]"
  by (simp add: inferTypeFrom_def on_graph_def)

lemma setValueTrace_events: "events (setValueTrace var n w) = events w @ [Trace (SetValueTrace var n)]"
  by (simp add: setValueTrace_def on_graph_def)

lemma add_inputs_events: "\<exists>ops. events (add_inputs env n xs w) = events w @ map Trace ops"
proof (induction xs arbitrary: w)
  case Nil
  have "events w = events w @ map Trace []" by simp
  then show ?case unfolding add_inputs.simps by blast
next
  case (Cons x xs)
  obtain v w1 where g: "on_graph (GetValueTrace x) (\<lambda>st. getValueTrace env st x) w = (v, w1)"
    by fastforce
  let ?w2 = "addInput n (Some v) w1"
  from Cons.IH [of ?w2] obtain ops where
    "events (add_inputs env n xs ?w2) = events ?w2 @ map Trace ops" ..
  then have "events (add_inputs env n (x # xs) w) =
      events w @ map Trace (GetValueTrace x # AddInput n (Some v) # ops)"
    using g by (simp add: on_graph_events [OF g] addInput_events)
  then show ?case by blast
qed

lemma set_output_traces_events:
  "\<exists>ops. events (set_output_traces n outs i w) = events w @ map Trace ops"
proof (induction outs arbitrary: i w)
  case Nil
  have "events w = events w @ map Trace []" by simp
  then show ?case unfolding set_output_traces.simps by blast
next
  case (Cons out outs)
  obtain s w1 where c: "createSelect n i w = (s, w1)" by fastforce
  obtain sel w2 where a: "appendNode s w1 = (sel, w2)" by fastforce
  define w3 where "w3 = (case out of None \<Rightarrow> w2
        | Some v \<Rightarrow> setValueTrace out sel (inferTypeFrom sel (var_data v) w2))"
  have "\<exists>ops3. events w3 = events w2 @ map Trace ops3"
  proof (cases out)
    case None
    then have "events w3 = events w2 @ map Trace []" by (simp add: w3_def)
    then show ?thesis by blast
  next
    case (Some v)
    then have "events w3 = events w2 @ map Trace [InferTypeFrom sel (var_data v), SetValueTrace out sel]"
      by (simp add: w3_def setValueTrace_events inferTypeFrom_events)
    then show ?thesis by blast
  qed
  then obtain ops3 where e3: "events w3 = events w2 @ map Trace ops3" ..
  from Cons.IH [of "i + 1" w3] obtain ops where
    "events (set_output_traces n outs (i + 1) w3) = events w3 @ map Trace ops" ..
  then have "events (set_output_traces n (out # outs) i w) =
      events w @ map Trace (CreateSelect n i # AppendNode s # ops3 @ ops)"
    using c a by (simp add: w3_def [symmetric] e3 createSelect_events [OF c] appendNode_events [OF a])
  then show ?case by blast
qed

lemma unpack_saved_result:
  "unpack_saved env fn svs bw w =
     (bw @ map (\<lambda>sv. unpack env sv (self_ptr fn)) svs, w\<lparr> events := events w @ map Unpack svs \<rparr>)"
  by (induction svs arbitrary: bw w) (simp_all add: emit_def)

lemma setUpContextEdge_events:
  "\<exists>ops. events (setUpContextEdge env n k ins outs w) =
      events w @ SetUpContextEdge n k ins outs # map Trace ops"
proof -
  define w1 where "w1 = emit (SetUpContextEdge n k ins outs) w"
  obtain s w2 where c: "createSelect n k w1 = (s, w2)" by fastforce
  obtain sel w3 where a: "appendNode s w2 = (sel, w3)" by fastforce
  have e4: "events (setType sel HandleType w3) =
      events w @ SetUpContextEdge n k ins outs # map Trace [CreateSelect n k, AppendNode s, SetType sel HandleType]"
    by (simp add: setType_events appendNode_events [OF a] createSelect_events [OF c] w1_def events_emit)
  show ?thesis
  proof (cases "getBackwardEval env ins outs")
    case None
    then have "setUpContextEdge env n k ins outs w = setType sel HandleType w3"
      by (simp add: setUpContextEdge_def w1_def [symmetric] c a)
    with e4 show ?thesis by metis
  next
    case (Some ev)
    then have "events (setUpContextEdge env n k ins outs w) =
       events (setType sel HandleType w3) @ [Trace (SetForwardCtxSelect ev sel)]"
      by (simp add: setUpContextEdge_def Let_def w1_def [symmetric] c a)
    then have "events (setUpContextEdge env n k ins outs w) =
       events w @ SetUpContextEdge n k ins outs # map Trace [CreateSelect n k, AppendNode s, SetType sel HandleType, SetForwardCtxSelect ev sel]"
      using e4 by simp
    then show ?thesis by blast
  qed
qed


lemma trace_backward_None:
  "saved_variables fn = None \<Longrightarrow>
   trace_backward env fn ins outs w =
     (Inl (RuntimeError (''saved_variables() needed but not implemented in '' @ fn_name fn)),
      emit SavedVariables w)"
  by (simp add: trace_backward_def)

lemma trace_backward_Some:
  "saved_variables fn = Some svs \<Longrightarrow>
   fst (trace_backward env fn ins outs w) = Inr () \<and>
   events (snd (trace_backward env fn ins outs w)) =
     events w @ SavedVariables # map Unpack svs @
       [NontraceableBackwardSubgraph (ins @ map (\<lambda>sv. unpack env sv (self_ptr fn)) svs) outs]"
  by (simp add: trace_backward_def unpack_saved_result emit_def)

lemma link_backward_unfold:
  "link_backward env fn n k ins outs w =
     (let w1 = (if is_eval fn then addInput n (forward_ctx_select w (self_ptr fn)) w else w)
      in if in_eval_subgraph fn
         then (Inr (), if is_eval fn then setUpContextEdge env n k ins outs w1 else w1)
         else (case trace_backward env fn ins outs w1 of
                 (Inl e, w2) \<Rightarrow> (Inl e, w2)
               | (Inr _, w2) \<Rightarrow> (Inr (), setUpContextEdge env n k ins outs w2)))"
  by (simp add: link_backward_def Let_def split: prod.splits sum.splits)

lemma link_backward_result:
  "fst (link_backward env fn n k ins outs w) =
     (if \<not> in_eval_subgraph fn \<and> saved_variables fn = None
      then Inl (RuntimeError (''saved_variables() needed but not implemented in '' @ fn_name fn))
      else Inr ())"
proof (cases "saved_variables fn")
  case None
  then show ?thesis
    by (simp add: link_backward_unfold Let_def trace_backward_None)
next
  case (Some svs)
  define w1 where
    "w1 = (if is_eval fn then addInput n (forward_ctx_select w (self_ptr fn)) w else w)"
  obtain r w2 where t: "trace_backward env fn ins outs w1 = (r, w2)" by fastforce
  from trace_backward_Some [OF Some, of env ins outs w1] t have "r = Inr ()" by simp
  then show ?thesis
    using t Some by (simp add: link_backward_unfold Let_def w1_def [symmetric])
qed

lemma link_backward_events:
  "\<exists>ops ops'. events (snd (link_backward env fn n k ins outs w)) =
     events w @ map Trace ops
     @ (if in_eval_subgraph fn then []
        else SavedVariables #
          (case saved_variables fn of
             None \<Rightarrow> []
           | Some svs \<Rightarrow> map Unpack svs @
               [NontraceableBackwardSubgraph
                  (ins @ map (\<lambda>sv. unpack env sv (self_ptr fn)) svs) outs]))
     @ (if (in_eval_subgraph fn \<and> is_eval fn) \<or> (\<not> in_eval_subgraph fn \<and> saved_variables fn \<noteq> None)
        then SetUpContextEdge n k ins outs # map Trace ops' else [])"
proof -
  define w1 where
    "w1 = (if is_eval fn then addInput n (forward_ctx_select w (self_ptr fn)) w else w)"
  have unf: "link_backward env fn n k ins outs w =
     (if in_eval_subgraph fn
         then (Inr (), if is_eval fn then setUpContextEdge env n k ins outs w1 else w1)
         else (case trace_backward env fn ins outs w1 of
                 (Inl e, w2) \<Rightarrow> (Inl e, w2)
               | (Inr _, w2) \<Rightarrow> (Inr (), setUpContextEdge env n k ins outs w2)))"
    by (simp add: link_backward_unfold Let_def w1_def)
  have "\<exists>ops. events w1 = events w @ map Trace ops"
  proof (cases "is_eval fn")
    case True
    then have "events w1 = events w @ map Trace [AddInput n (forward_ctx_select w (self_ptr fn))]"
      by (simp add: w1_def addInput_events)
    then show ?thesis by blast
  next
    case False
    then have "events w1 = events w @ map Trace []" by (simp add: w1_def)
    then show ?thesis by blast
  qed
  then obtain ops where e1: "events w1 = events w @ map Trace ops" ..
  show ?thesis
  proof (cases "in_eval_subgraph fn")
    case nested: True
    show ?thesis
    proof (cases "is_eval fn")
      case True
      obtain ops' where "events (setUpContextEdge env n k ins outs w1) =
          events w1 @ SetUpContextEdge n k ins outs # map Trace ops'"
        using setUpContextEdge_events by blast
      then have "events (snd (link_backward env fn n k ins outs w)) =
          events w @ map Trace ops @ [] @ SetUpContextEdge n k ins outs # map Trace ops'"
        using nested True by (simp add: unf e1)
      then show ?thesis using nested True by auto
    next
      case False
      have "events (snd (link_backward env fn n k ins outs w)) = events w @ map Trace ops"
        using nested False by (simp add: unf e1)
      then show ?thesis using nested False by auto
    qed
  next
    case top: False
    show ?thesis
    proof (cases "saved_variables fn")
      case None
      have "events (snd (link_backward env fn n k ins outs w)) =
          events w @ map Trace ops @ [SavedVariables]"
        using top None
        by (simp add: unf e1 trace_backward_None events_emit)
      then show ?thesis using top None by auto
    next
      case (Some svs)
      obtain r w2 where t: "trace_backward env fn ins outs w1 = (r, w2)" by fastforce
      from trace_backward_Some [OF Some, of env ins outs w1] t
      have r: "r = Inr ()" and e2: "events w2 = events w1 @ SavedVariables # map Unpack svs @
         [NontraceableBackwardSubgraph (ins @ map (\<lambda>sv. unpack env sv (self_ptr fn)) svs) outs]"
        by simp_all
      obtain ops' where "events (setUpContextEdge env n k ins outs w2) =
          events w2 @ SetUpContextEdge n k ins outs # map Trace ops'"
        using setUpContextEdge_events by blast
      then have "events (snd (link_backward env fn n k ins outs w)) =
          events w @ map Trace ops @ (SavedVariables # map Unpack svs @
         [NontraceableBackwardSubgraph (ins @ map (\<lambda>sv. unpack env sv (self_ptr fn)) svs) outs])
          @ SetUpContextEdge n k ins outs # map Trace ops'"
        using top by (simp add: unf t r e1 e2)
      then show ?thesis using top Some by auto
    qed
  qed
qed

lemma tracedApply_nontraceable:
  assumes "\<not> is_traceable fn"
  shows "\<exists>w8 ops1 ops2.
      events w8 = events w @ Lock # map Trace ops1 @ [Unlock, Apply inputs, Lock] @ map Trace ops2
    \<and> tracedApply env fn inputs w =
        (if passes_state_transparently fn then (Inr (fn_apply fn inputs), emit Unlock w8)
         else (case link_backward env fn (length (graph_store (tracing w)))
                     (int (length (fn_apply fn inputs))) inputs (fn_apply fn inputs) w8 of
                 (r, w9) \<Rightarrow> (case r of
                               Inl e \<Rightarrow> (Inl e, emit Unlock w9)
                             | Inr _ \<Rightarrow> (Inr (fn_apply fn inputs), emit Unlock w9))))"
proof -
  define w1 where "w1 = emit Lock w"
  obtain this_node w2 where c: "createCppOp (self_ptr fn) w1 = (this_node, w2)" by fastforce
  have n: "this_node = length (graph_store (tracing w))"
    using createCppOp_node [OF c] by (simp add: w1_def emit_def)
  define w3 where "w3 = add_inputs env this_node inputs w2"
  obtain ops where e3: "events w3 = events w2 @ map Trace ops"
    unfolding w3_def using add_inputs_events by blast
  obtain r4 w4 where a: "appendNode this_node w3 = (r4, w4)" by fastforce
  define w7 where "w7 = emit Lock (emit (Apply inputs) (emit Unlock w4))"
  define w8 where "w8 = set_output_traces this_node (fn_apply fn inputs) 0 w7"
  obtain ops2 where e8: "events w8 = events w7 @ map Trace ops2"
    unfolding w8_def using set_output_traces_events by blast
  have "events w8 = events w @ Lock # map Trace (CreateCppOp (self_ptr fn) # ops @ [AppendNode this_node])
      @ [Unlock, Apply inputs, Lock] @ map Trace ops2"
    by (simp add: e8 w7_def events_emit appendNode_events [OF a] e3 createCppOp_events [OF c] w1_def)
  moreover have "tracedApply env fn inputs w =
        (if passes_state_transparently fn then (Inr (fn_apply fn inputs), emit Unlock w8)
         else (case link_backward env fn (length (graph_store (tracing w)))
                     (int (length (fn_apply fn inputs))) inputs (fn_apply fn inputs) w8 of
                 (r, w9) \<Rightarrow> (case r of
                               Inl e \<Rightarrow> (Inl e, emit Unlock w9)
                             | Inr _ \<Rightarrow> (Inr (fn_apply fn inputs), emit Unlock w9))))"
    using assms
    by (simp add: tracedApply_def Let_def w1_def [symmetric] c w3_def [symmetric] a
        w7_def [symmetric] w8_def [symmetric] n [symmetric] split: prod.splits)
  ultimately show ?thesis by blast
qed

lemma tracedApply_events_nontraceable:
  assumes "\<not> is_traceable fn"
  shows "\<exists>ops1 ops2 ops3 ops4. tracedApply_events env fn inputs w =
      Lock # map Trace ops1 @ [Unlock, Apply inputs, Lock] @ map Trace ops2 @
      (if passes_state_transparently fn then []
       else map Trace ops3
         @ (if in_eval_subgraph fn then []
            else SavedVariables #
              (case saved_variables fn of
                 None \<Rightarrow> []
               | Some svs \<Rightarrow> map Unpack svs @
                   [NontraceableBackwardSubgraph
                      (inputs @ map (\<lambda>sv. unpack env sv (self_ptr fn)) svs) (fn_apply fn inputs)]))
         @ (if (in_eval_subgraph fn \<and> is_eval fn) \<or> (\<not> in_eval_subgraph fn \<and> saved_variables fn \<noteq> None)
            then SetUpContextEdge (length (graph_store (tracing w))) (int (length (fn_apply fn inputs)))
                   inputs (fn_apply fn inputs) # map Trace ops4
            else []))
      @ [Unlock]"
proof -
  let ?n = "length (graph_store (tracing w))" and ?k = "int (length (fn_apply fn inputs))"
  let ?outs = "fn_apply fn inputs"
  from tracedApply_nontraceable [OF assms, of w inputs env]
  obtain w8 ops1 ops2 where
    e8: "events w8 = events w @ Lock # map Trace ops1 @ [Unlock, Apply inputs, Lock] @ map Trace ops2"
    and run: "tracedApply env fn inputs w =
        (if passes_state_transparently fn then (Inr ?outs, emit Unlock w8)
         else (case link_backward env fn ?n ?k inputs ?outs w8 of
                 (r, w9) \<Rightarrow> (case r of
                               Inl e \<Rightarrow> (Inl e, emit Unlock w9)
                             | Inr _ \<Rightarrow> (Inr ?outs, emit Unlock w9))))"
    by blast
  show ?thesis
  proof (cases "passes_state_transparently fn")
    case True
    then have "tracedApply_events env fn inputs w =
        Lock # map Trace ops1 @ [Unlock, Apply inputs, Lock] @ map Trace ops2 @ [Unlock]"
      by (simp add: tracedApply_events_def run events_emit e8)
    then show ?thesis using True by auto
  next
    case False
    obtain ops3 ops4 where e9: "events (snd (link_backward env fn ?n ?k inputs ?outs w8)) =
       events w8 @ map Trace ops3
       @ (if in_eval_subgraph fn then []
          else SavedVariables #
            (case saved_variables fn of
               None \<Rightarrow> []
             | Some svs \<Rightarrow> map Unpack svs @
                 [NontraceableBackwardSubgraph
                    (inputs @ map (\<lambda>sv. unpack env sv (self_ptr fn)) svs) ?outs]))
       @ (if (in_eval_subgraph fn \<and> is_eval fn) \<or> (\<not> in_eval_subgraph fn \<and> saved_variables fn \<noteq> None)
          then SetUpContextEdge ?n ?k inputs ?outs # map Trace ops4 else [])"
      using link_backward_events by blast
    have "events (snd (tracedApply env fn inputs w)) =
        events (snd (link_backward env fn ?n ?k inputs ?outs w8)) @ [Unlock]"
      using False by (simp add: run events_emit split: prod.splits sum.splits)
    then have "tracedApply_events env fn inputs w =
      Lock # map Trace ops1 @ [Unlock, Apply inputs, Lock] @ map Trace ops2 @
      (map Trace ops3
         @ (if in_eval_subgraph fn then []
            else SavedVariables #
              (case saved_variables fn of
                 None \<Rightarrow> []
               | Some svs \<Rightarrow> map Unpack svs @
                   [NontraceableBackwardSubgraph
                      (inputs @ map (\<lambda>sv. unpack env sv (self_ptr fn)) svs) ?outs]))
         @ (if (in_eval_subgraph fn \<and> is_eval fn) \<or> (\<not> in_eval_subgraph fn \<and> saved_variables fn \<noteq> None)
            then SetUpContextEdge ?n ?k inputs ?outs # map Trace ops4
            else []))
      @ [Unlock]"
      by (simp add: tracedApply_events_def e9 e8)
    then show ?thesis using False by auto
  qed
qed

lemma tracedApply_result:
  "fst (tracedApply env fn inputs w) =
     (if \<not> is_traceable fn \<and> \<not> passes_state_transparently fn
           \<and> \<not> in_eval_subgraph fn \<and> saved_variables fn = None
      then Inl (RuntimeError (''saved_variables() needed but not implemented in '' @ fn_name fn))
      else Inr (fn_apply fn inputs))"
proof (cases "is_traceable fn")
  case True
  then show ?thesis by (simp add: tracedApply_def)
next
  case False
  from tracedApply_nontraceable [OF False, of w inputs env]
  obtain w8 where
    run: "tracedApply env fn inputs w =
        (if passes_state_transparently fn then (Inr (fn_apply fn inputs), emit Unlock w8)
         else (case link_backward env fn (length (graph_store (tracing w)))
                     (int (length (fn_apply fn inputs))) inputs (fn_apply fn inputs) w8 of
                 (r, w9) \<Rightarrow> (case r of
                               Inl e \<Rightarrow> (Inl e, emit Unlock w9)
                             | Inr _ \<Rightarrow> (Inr (fn_apply fn inputs), emit Unlock w9))))"
    by blast
  obtain r w9 where l: "link_backward env fn (length (graph_store (tracing w)))
        (int (length (fn_apply fn inputs))) inputs (fn_apply fn inputs) w8 = (r, w9)"
    by fastforce
  have r: "r = (if \<not> in_eval_subgraph fn \<and> saved_variables fn = None
      then Inl (RuntimeError (''saved_variables() needed but not implemented in '' @ fn_name fn))
      else Inr ())"
    using link_backward_result [of env fn "length (graph_store (tracing w))"
        "int (length (fn_apply fn inputs))" inputs "fn_apply fn inputs" w8] l
    by simp
  show ?thesis
  proof (cases "\<not> in_eval_subgraph fn \<and> saved_variables fn = None")
    case True
    then show ?thesis using False r by (simp add: run l)
  next
    case no_fail: False
    then have "r = Inr ()" using r by simp
    then show ?thesis using False no_fail by (simp add: run l)
  qed
qed

text \<open>The logs of two concrete runs, computed from the definitions.\<close>

lemmas run_defs = tracedApply_events_def tracedApply_def Let_def emit_def createCppOp_def
  on_graph_def new_node_def appendNode_def addInput_def update_node_def createSelect_def
  setValueTrace_def inferTypeFrom_def link_backward_def trace_backward_def
  setUpContextEdge_def setType_def

lemma nested_fn_events:
  "tracedApply_events example_env nested_fn [Some leaf_var, None] example_world =
     [Lock, Trace (CreateCppOp 1),
      Trace (GetValueTrace (Some leaf_var)), Trace (AddInput 0 (Some 1)),
      Trace (GetValueTrace None), Trace (AddInput 0 (Some 2)),
      Trace (AppendNode 0), Unlock, Apply [Some leaf_var, None], Lock,
      Trace (CreateSelect 0 0), Trace (AppendNode 3), Trace (InferTypeFrom 3 11),
      Trace (SetValueTrace (Some leaf_var) 3),
      Trace (CreateSelect 0 1), Trace (AppendNode 4), Unlock]"
  by (simp add: run_defs example_env_def nested_fn_def example_fn_def example_world_def
      leaf_var_def)

lemma example_fn_events:
  "tracedApply_events example_env example_fn [Some leaf_var, None] example_world =
     [Lock, Trace (CreateCppOp 1),
      Trace (GetValueTrace (Some leaf_var)), Trace (AddInput 0 (Some 1)),
      Trace (GetValueTrace None), Trace (AddInput 0 (Some 2)),
      Trace (AppendNode 0), Unlock, Apply [Some leaf_var, None], Lock,
      Trace (CreateSelect 0 0), Trace (AppendNode 3), Trace (InferTypeFrom 3 11),
      Trace (SetValueTrace (Some leaf_var) 3),
      Trace (CreateSelect 0 1), Trace (AppendNode 4),
      SavedVariables, Unpack 5,
      NontraceableBackwardSubgraph [Some leaf_var, None, None] [Some leaf_var, None],
      SetUpContextEdge 0 2 [Some leaf_var, None] [Some leaf_var, None],
      Trace (CreateSelect 0 2), Trace (AppendNode 5), Trace (SetType 5 HandleType),
      Trace (SetForwardCtxSelect 7 5), Unlock]"
  by (simp add: run_defs example_env_def example_fn_def example_world_def leaf_var_def)

subsection \<open>Properties of the trace bridge\<close>

text \<open>
  C4. Whenever \<^verbatim>\<open>tracedApply\<close> returns a list of outputs, that list is the one
  \<^verbatim>\<open>apply(inputs)\<close> produced. A traceable node returns it without touching the tracing
  state, and a node that is not traceable returns it unless the call fails for missing
  saved variables.
\<close>

theorem tracedApply_returns_apply:
  "(fst (tracedApply env fn inputs w) = Inr outputs \<longrightarrow> outputs = fn_apply fn inputs)
   \<and> (is_traceable fn \<longrightarrow>
        fst (tracedApply env fn inputs w) = Inr (fn_apply fn inputs)
        \<and> tracing (snd (tracedApply env fn inputs w)) = tracing w)
   \<and> (\<not> is_traceable fn
        \<and> (passes_state_transparently fn \<or> in_eval_subgraph fn \<or> saved_variables fn \<noteq> None) \<longrightarrow>
        fst (tracedApply env fn inputs w) = Inr (fn_apply fn inputs))"
proof -
  have "is_traceable fn \<longrightarrow> tracing (snd (tracedApply env fn inputs w)) = tracing w"
    by (simp add: tracedApply_def emit_def)
  then show ?thesis
    using tracedApply_result [of env fn inputs w] by (auto split: if_splits)
qed

theorem tracedApply_returns_apply_witness:
  "is_traceable traceable_fn
   \<and> fst (tracedApply example_env traceable_fn [Some leaf_var, None] example_world)
        = Inr (fn_apply traceable_fn [Some leaf_var, None])
   \<and> \<not> is_traceable example_fn \<and> saved_variables example_fn \<noteq> None
   \<and> fst (tracedApply example_env example_fn [Some leaf_var, None] example_world)
        = Inr (fn_apply example_fn [Some leaf_var, None])
   \<and> fn_apply example_fn [Some leaf_var, None] = [Some leaf_var, None]"
  using tracedApply_returns_apply [of example_env traceable_fn "[Some leaf_var, None]" example_world]
    tracedApply_returns_apply [of example_env example_fn "[Some leaf_var, None]" example_world]
  by (simp add: traceable_fn_def example_fn_def)

text \<open>
  C5. When a node is not traceable, does not pass state transparently, needs its backward
  subgraph captured (it is not inside an \<^verbatim>\<open>Eval\<close> subgraph) and its
  \<^verbatim>\<open>saved_variables()\<close> returns nothing, \<^verbatim>\<open>tracedApply\<close> fails with a runtime error
  whose message ends in the node's name. The run calls \<^verbatim>\<open>apply\<close> once and
  \<^verbatim>\<open>saved_variables()\<close> once, and after the failed \<^verbatim>\<open>saved_variables()\<close> it only releases
  the lock: nothing is retried.
\<close>

theorem tracedApply_missing_saved_variables:
  assumes "\<not> is_traceable fn" and "\<not> passes_state_transparently fn"
    and "\<not> in_eval_subgraph fn" and "saved_variables fn = None"
  shows "fst (tracedApply env fn inputs w) =
           Inl (RuntimeError (''saved_variables() needed but not implemented in '' @ fn_name fn))
         \<and> (\<exists>ops ops'. tracedApply_events env fn inputs w =
               Lock # map Trace ops @ [Unlock, Apply inputs, Lock] @ map Trace ops'
                 @ [SavedVariables, Unlock])"
proof -
  from tracedApply_events_nontraceable [OF assms(1), of env inputs w] assms
  obtain ops1 ops2 ops3 where "tracedApply_events env fn inputs w =
      Lock # map Trace ops1 @ [Unlock, Apply inputs, Lock] @ map Trace (ops2 @ ops3)
        @ [SavedVariables, Unlock]"
    by auto
  then have "\<exists>ops ops'. tracedApply_events env fn inputs w =
               Lock # map Trace ops @ [Unlock, Apply inputs, Lock] @ map Trace ops'
                 @ [SavedVariables, Unlock]"
    by blast
  then show ?thesis
    using assms by (simp add: tracedApply_result)
qed

theorem tracedApply_missing_saved_variables_witness:
  "\<not> is_traceable unsaved_fn \<and> \<not> passes_state_transparently unsaved_fn
   \<and> \<not> in_eval_subgraph unsaved_fn \<and> saved_variables unsaved_fn = None
   \<and> fst (tracedApply example_env unsaved_fn [Some leaf_var, None] example_world) =
       Inl (RuntimeError ''saved_variables() needed but not implemented in MulBackward'')"
  using tracedApply_missing_saved_variables
          [of unsaved_fn example_env "[Some leaf_var, None]" example_world]
  by (simp add: unsaved_fn_def example_fn_def)

text \<open>
  C6, as stated, fails. The claim has \<^verbatim>\<open>saved_variables()\<close> called and the backward
  subgraph marked exactly when the call is nested inside an \<^verbatim>\<open>Eval\<close> subgraph. A nested
  node makes neither call, and a node that is not nested makes both.
\<close>

theorem saved_variables_when_nested_counterexample:
  "\<not> is_traceable nested_fn \<and> \<not> passes_state_transparently nested_fn
   \<and> in_eval_subgraph nested_fn
   \<and> SavedVariables \<notin> set (tracedApply_events example_env nested_fn [Some leaf_var, None] example_world)
   \<and> NontraceableBackwardSubgraph [Some leaf_var, None, None] [Some leaf_var, None]
        \<notin> set (tracedApply_events example_env nested_fn [Some leaf_var, None] example_world)
   \<and> \<not> is_traceable example_fn \<and> \<not> passes_state_transparently example_fn
   \<and> \<not> in_eval_subgraph example_fn
   \<and> SavedVariables \<in> set (tracedApply_events example_env example_fn [Some leaf_var, None] example_world)
   \<and> NontraceableBackwardSubgraph [Some leaf_var, None, None] [Some leaf_var, None]
        \<in> set (tracedApply_events example_env example_fn [Some leaf_var, None] example_world)"
proof -
  have flags: "\<not> is_traceable nested_fn \<and> \<not> passes_state_transparently nested_fn
      \<and> in_eval_subgraph nested_fn
      \<and> \<not> is_traceable example_fn \<and> \<not> passes_state_transparently example_fn
      \<and> \<not> in_eval_subgraph example_fn"
    by (simp add: nested_fn_def example_fn_def)
  have nested: "SavedVariables
        \<notin> set (tracedApply_events example_env nested_fn [Some leaf_var, None] example_world)
      \<and> NontraceableBackwardSubgraph [Some leaf_var, None, None] [Some leaf_var, None]
        \<notin> set (tracedApply_events example_env nested_fn [Some leaf_var, None] example_world)"
    by (simp add: nested_fn_events)
  have top: "SavedVariables
        \<in> set (tracedApply_events example_env example_fn [Some leaf_var, None] example_world)
      \<and> NontraceableBackwardSubgraph [Some leaf_var, None, None] [Some leaf_var, None]
        \<in> set (tracedApply_events example_env example_fn [Some leaf_var, None] example_world)"
    by (simp add: example_fn_events)
  from flags nested top show ?thesis by blast
qed

text \<open>
  C6, amended. For a node that is not traceable and does not pass state transparently,
  \<^verbatim>\<open>saved_variables()\<close> is called exactly when \<^verbatim>\<open>should_trace_backward\<close>, which the code
  sets to the node's \<^verbatim>\<open>in_eval_subgraph\<close> flag, is false: exactly when the call is not
  nested inside an \<^verbatim>\<open>Eval\<close> subgraph. The backward subgraph is marked exactly when,
  further, \<^verbatim>\<open>saved_variables()\<close> returns a list; then exactly the saved variables of that
  list are unpacked, and the collaborator receives the inputs followed by the unpacked
  values, and the outputs of \<^verbatim>\<open>apply\<close>.
\<close>

theorem tracedApply_backward_capture:
  assumes "\<not> is_traceable fn" and "\<not> passes_state_transparently fn"
  shows "(SavedVariables \<in> set (tracedApply_events env fn inputs w)) = (\<not> in_eval_subgraph fn)
     \<and> ((\<exists>bw outs. NontraceableBackwardSubgraph bw outs \<in> set (tracedApply_events env fn inputs w))
          = (\<not> in_eval_subgraph fn \<and> saved_variables fn \<noteq> None))
     \<and> ((\<exists>sv. Unpack sv \<in> set (tracedApply_events env fn inputs w)) \<longrightarrow>
          \<not> in_eval_subgraph fn \<and> saved_variables fn \<noteq> None)
     \<and> (\<forall>svs. \<not> in_eval_subgraph fn \<and> saved_variables fn = Some svs \<longrightarrow>
          (\<forall>sv. (Unpack sv \<in> set (tracedApply_events env fn inputs w)) = (sv \<in> set svs))
          \<and> NontraceableBackwardSubgraph
               (inputs @ map (\<lambda>sv. unpack env sv (self_ptr fn)) svs) (fn_apply fn inputs)
               \<in> set (tracedApply_events env fn inputs w))"
proof -
  from tracedApply_events_nontraceable [OF assms(1), of env inputs w] assms(2)
  obtain ops1 ops2 ops3 ops4 where E: "tracedApply_events env fn inputs w =
      Lock # map Trace ops1 @ [Unlock, Apply inputs, Lock] @ map Trace ops2 @
      (map Trace ops3
         @ (if in_eval_subgraph fn then []
            else SavedVariables #
              (case saved_variables fn of
                 None \<Rightarrow> []
               | Some svs \<Rightarrow> map Unpack svs @
                   [NontraceableBackwardSubgraph
                      (inputs @ map (\<lambda>sv. unpack env sv (self_ptr fn)) svs) (fn_apply fn inputs)]))
         @ (if (in_eval_subgraph fn \<and> is_eval fn) \<or> (\<not> in_eval_subgraph fn \<and> saved_variables fn \<noteq> None)
            then SetUpContextEdge (length (graph_store (tracing w))) (int (length (fn_apply fn inputs)))
                   inputs (fn_apply fn inputs) # map Trace ops4
            else []))
      @ [Unlock]"
    by auto
  show ?thesis
    unfolding E by (cases "saved_variables fn") auto
qed

theorem tracedApply_backward_capture_witness:
  "\<not> is_traceable example_fn \<and> \<not> passes_state_transparently example_fn
   \<and> \<not> in_eval_subgraph example_fn \<and> saved_variables example_fn = Some [5]
   \<and> SavedVariables \<in> set (tracedApply_events example_env example_fn [Some leaf_var, None] example_world)
   \<and> Unpack 5 \<in> set (tracedApply_events example_env example_fn [Some leaf_var, None] example_world)
   \<and> NontraceableBackwardSubgraph
        ([Some leaf_var, None] @ map (\<lambda>sv. unpack example_env sv (self_ptr example_fn)) [5])
        (fn_apply example_fn [Some leaf_var, None])
        \<in> set (tracedApply_events example_env example_fn [Some leaf_var, None] example_world)"
  using tracedApply_backward_capture [of example_fn example_env "[Some leaf_var, None]" example_world]
  by (simp add: example_fn_def)

text \<open>
  C7, as stated, fails. A node that is not an \<^verbatim>\<open>Eval\<close> and whose backward subgraph was
  captured does receive a context edge, and a node that is not an \<^verbatim>\<open>Eval\<close> and whose
  backward tracing was skipped receives none.
\<close>

theorem context_edge_when_skipped_counterexample:
  "\<not> is_traceable example_fn \<and> \<not> passes_state_transparently example_fn \<and> \<not> is_eval example_fn
   \<and> NontraceableBackwardSubgraph [Some leaf_var, None, None] [Some leaf_var, None]
        \<in> set (tracedApply_events example_env example_fn [Some leaf_var, None] example_world)
   \<and> SetUpContextEdge 0 2 [Some leaf_var, None] [Some leaf_var, None]
        \<in> set (tracedApply_events example_env example_fn [Some leaf_var, None] example_world)
   \<and> \<not> is_traceable nested_fn \<and> \<not> passes_state_transparently nested_fn \<and> \<not> is_eval nested_fn
   \<and> SavedVariables \<notin> set (tracedApply_events example_env nested_fn [Some leaf_var, None] example_world)
   \<and> SetUpContextEdge 0 2 [Some leaf_var, None] [Some leaf_var, None]
        \<notin> set (tracedApply_events example_env nested_fn [Some leaf_var, None] example_world)"
proof -
  have flags: "\<not> is_traceable example_fn \<and> \<not> passes_state_transparently example_fn
      \<and> \<not> is_eval example_fn
      \<and> \<not> is_traceable nested_fn \<and> \<not> passes_state_transparently nested_fn
      \<and> \<not> is_eval nested_fn"
    by (simp add: nested_fn_def example_fn_def)
  have top: "NontraceableBackwardSubgraph [Some leaf_var, None, None] [Some leaf_var, None]
        \<in> set (tracedApply_events example_env example_fn [Some leaf_var, None] example_world)
      \<and> SetUpContextEdge 0 2 [Some leaf_var, None] [Some leaf_var, None]
        \<in> set (tracedApply_events example_env example_fn [Some leaf_var, None] example_world)"
    by (simp add: example_fn_events)
  have nested: "SavedVariables
        \<notin> set (tracedApply_events example_env nested_fn [Some leaf_var, None] example_world)
      \<and> SetUpContextEdge 0 2 [Some leaf_var, None] [Some leaf_var, None]
        \<notin> set (tracedApply_events example_env nested_fn [Some leaf_var, None] example_world)"
    by (simp add: nested_fn_events)
  from flags top nested show ?thesis by blast
qed

text \<open>
  C7, amended. For a node that is not traceable and does not pass state transparently,
  \<^verbatim>\<open>setUpContextEdge\<close> is called exactly when the call does not fail and either the
  backward subgraph was captured (the node is not inside an \<^verbatim>\<open>Eval\<close> subgraph) or the
  node is itself an \<^verbatim>\<open>Eval\<close>. Every such call passes the composite node, the number of
  outputs as the slot, the inputs and the outputs.
\<close>

theorem tracedApply_context_edge:
  assumes "\<not> is_traceable fn" and "\<not> passes_state_transparently fn"
  shows "((\<exists>n k ins outs. SetUpContextEdge n k ins outs \<in> set (tracedApply_events env fn inputs w))
            = ((\<exists>outs. fst (tracedApply env fn inputs w) = Inr outs)
               \<and> (\<not> in_eval_subgraph fn \<or> is_eval fn)))
     \<and> ((\<exists>n k ins outs. SetUpContextEdge n k ins outs \<in> set (tracedApply_events env fn inputs w))
            = ((\<exists>bw outs. NontraceableBackwardSubgraph bw outs \<in> set (tracedApply_events env fn inputs w))
               \<or> (is_eval fn \<and> (\<exists>outs. fst (tracedApply env fn inputs w) = Inr outs))))
     \<and> (\<forall>n k ins outs. SetUpContextEdge n k ins outs \<in> set (tracedApply_events env fn inputs w) \<longrightarrow>
            n = length (graph_store (tracing w)) \<and> k = int (length (fn_apply fn inputs))
            \<and> ins = inputs \<and> outs = fn_apply fn inputs)"
proof -
  from tracedApply_events_nontraceable [OF assms(1), of env inputs w] assms(2)
  obtain ops1 ops2 ops3 ops4 where E: "tracedApply_events env fn inputs w =
      Lock # map Trace ops1 @ [Unlock, Apply inputs, Lock] @ map Trace ops2 @
      (map Trace ops3
         @ (if in_eval_subgraph fn then []
            else SavedVariables #
              (case saved_variables fn of
                 None \<Rightarrow> []
               | Some svs \<Rightarrow> map Unpack svs @
                   [NontraceableBackwardSubgraph
                      (inputs @ map (\<lambda>sv. unpack env sv (self_ptr fn)) svs) (fn_apply fn inputs)]))
         @ (if (in_eval_subgraph fn \<and> is_eval fn) \<or> (\<not> in_eval_subgraph fn \<and> saved_variables fn \<noteq> None)
            then SetUpContextEdge (length (graph_store (tracing w))) (int (length (fn_apply fn inputs)))
                   inputs (fn_apply fn inputs) # map Trace ops4
            else []))
      @ [Unlock]"
    by auto
  have R: "(\<exists>outs. fst (tracedApply env fn inputs w) = Inr outs)
             = (\<not> (\<not> in_eval_subgraph fn \<and> saved_variables fn = None))"
    using assms by (simp add: tracedApply_result)
  show ?thesis
    unfolding E R by (cases "saved_variables fn") auto
qed

theorem tracedApply_context_edge_witness:
  "\<not> is_traceable nested_eval_fn \<and> \<not> passes_state_transparently nested_eval_fn
   \<and> is_eval nested_eval_fn \<and> in_eval_subgraph nested_eval_fn
   \<and> (\<exists>n k ins outs. SetUpContextEdge n k ins outs
         \<in> set (tracedApply_events example_env nested_eval_fn [Some leaf_var, None] example_world))"
  using tracedApply_context_edge [of nested_eval_fn example_env "[Some leaf_var, None]" example_world]
    tracedApply_result [of example_env nested_eval_fn "[Some leaf_var, None]" example_world]
  by (simp add: nested_eval_fn_def example_fn_def)

text \<open>
  C8. \<^verbatim>\<open>setUpContextEdge\<close> creates one node, the select of the given slot of the given
  node, appends it to the graph and gives it the handle type. When the lookup of the
  backward \<^verbatim>\<open>Eval\<close> finds a node, the \<^verbatim>\<open>forward_ctx_select\<close> of that node becomes the
  new select node; when it finds none, no \<^verbatim>\<open>forward_ctx_select\<close> changes.
\<close>

theorem setUpContextEdge_links:
  "graph_nodes (tracing (setUpContextEdge env node ctx_output_nr inputs outputs w))
       = graph_nodes (tracing w) @ [length (graph_store (tracing w))]
   \<and> graph_store (tracing (setUpContextEdge env node ctx_output_nr inputs outputs w))
       = graph_store (tracing w)
           @ [\<lparr> kind = Select node ctx_output_nr, node_inputs = [], node_type = Some HandleType \<rparr>]
   \<and> forward_ctx_select (setUpContextEdge env node ctx_output_nr inputs outputs w)
       = (case getBackwardEval env inputs outputs of
            None \<Rightarrow> forward_ctx_select w
          | Some ev \<Rightarrow> (forward_ctx_select w)(ev := Some (length (graph_store (tracing w)))))"
  by (simp add: setUpContextEdge_def Let_def emit_def createSelect_def appendNode_def setType_def
      on_graph_def new_node_def update_node_def split: option.splits)

text \<open>
  C9. Every run of \<^verbatim>\<open>tracedApply\<close> on a node that is not traceable takes the lock,
  works on the trace graph, releases the lock, calls \<^verbatim>\<open>apply\<close>, takes the lock again and
  keeps it until the function is left: the call of \<^verbatim>\<open>apply\<close> stands between the release
  and the next acquisition, and no other call of \<^verbatim>\<open>apply\<close> or operation on the lock
  happens before the final release.
\<close>

theorem tracedApply_apply_outside_lock:
  assumes "\<not> is_traceable fn"
  shows "\<exists>ops rest. tracedApply_events env fn inputs w =
            [Lock] @ map Trace ops @ [Unlock, Apply inputs, Lock] @ rest @ [Unlock]
          \<and> (\<forall>e \<in> set rest. e \<noteq> Lock \<and> e \<noteq> Unlock \<and> (\<forall>ins. e \<noteq> Apply ins))"
proof -
  from tracedApply_events_nontraceable [OF assms, of env inputs w]
  obtain ops1 ops2 ops3 ops4 where E: "tracedApply_events env fn inputs w =
      Lock # map Trace ops1 @ [Unlock, Apply inputs, Lock] @ map Trace ops2 @
      (if passes_state_transparently fn then []
       else map Trace ops3
         @ (if in_eval_subgraph fn then []
            else SavedVariables #
              (case saved_variables fn of
                 None \<Rightarrow> []
               | Some svs \<Rightarrow> map Unpack svs @
                   [NontraceableBackwardSubgraph
                      (inputs @ map (\<lambda>sv. unpack env sv (self_ptr fn)) svs) (fn_apply fn inputs)]))
         @ (if (in_eval_subgraph fn \<and> is_eval fn) \<or> (\<not> in_eval_subgraph fn \<and> saved_variables fn \<noteq> None)
            then SetUpContextEdge (length (graph_store (tracing w))) (int (length (fn_apply fn inputs)))
                   inputs (fn_apply fn inputs) # map Trace ops4
            else []))
      @ [Unlock]"
    by blast
  define rest where "rest = map Trace ops2 @
      (if passes_state_transparently fn then []
       else map Trace ops3
         @ (if in_eval_subgraph fn then []
            else SavedVariables #
              (case saved_variables fn of
                 None \<Rightarrow> []
               | Some svs \<Rightarrow> map Unpack svs @
                   [NontraceableBackwardSubgraph
                      (inputs @ map (\<lambda>sv. unpack env sv (self_ptr fn)) svs) (fn_apply fn inputs)]))
         @ (if (in_eval_subgraph fn \<and> is_eval fn) \<or> (\<not> in_eval_subgraph fn \<and> saved_variables fn \<noteq> None)
            then SetUpContextEdge (length (graph_store (tracing w))) (int (length (fn_apply fn inputs)))
                   inputs (fn_apply fn inputs) # map Trace ops4
            else []))"
  have 1: "tracedApply_events env fn inputs w =
            [Lock] @ map Trace ops1 @ [Unlock, Apply inputs, Lock] @ rest @ [Unlock]"
    by (simp add: E rest_def)
  have 2: "\<forall>e \<in> set rest. e \<noteq> Lock \<and> e \<noteq> Unlock \<and> (\<forall>ins. e \<noteq> Apply ins)"
    unfolding rest_def by (cases "saved_variables fn") auto
  from 1 2 show ?thesis by blast
qed

theorem tracedApply_apply_outside_lock_witness:
  "\<not> is_traceable example_fn
   \<and> (\<exists>ops rest. tracedApply_events example_env example_fn [Some leaf_var, None] example_world =
            [Lock] @ map Trace ops @ [Unlock, Apply [Some leaf_var, None], Lock] @ rest @ [Unlock]
          \<and> (\<forall>e \<in> set rest. e \<noteq> Lock \<and> e \<noteq> Unlock \<and> (\<forall>ins. e \<noteq> Apply ins)))"
  using tracedApply_apply_outside_lock [of example_fn example_env "[Some leaf_var, None]" example_world]
  by (simp add: example_fn_def)

end
